theory Spec2Isabelle
  imports Main
begin

section \<open>Values, objects and errors\<close>

text \<open>
  The runtime of \<^verbatim>\<open>packages/gluegun/src/domain/runtime.js\<close>: the function \<^verbatim>\<open>run\<close>
  and the method \<^verbatim>\<open>findCommand\<close> of the class \<^verbatim>\<open>Runtime\<close>.

  JavaScript values that configuration and options hold are primitives here; a flat object
  is a finite map from property names to values.
\<close>

datatype jsval = JUndefined | JNull | JBool bool | JNum int | JStr string

type_synonym props = "string \<rightharpoonup> jsval"

text \<open>
  What the code can throw: a property read on \<^verbatim>\<open>undefined\<close> is a \<^verbatim>\<open>TypeError\<close>, a read
  of an identifier that no scope binds is a \<^verbatim>\<open>ReferenceError\<close>, and the handlers that
  plugins supply (a command's \<^verbatim>\<open>run\<close>, an extension's \<^verbatim>\<open>setup\<close>) throw what they like.
\<close>

datatype error = TypeError | ReferenceError | Thrown jsval

section \<open>The data model\<close>

text \<open>
  The object that \<^verbatim>\<open>normalizeParams\<close> returns: its \<^verbatim>\<open>options\<close> property, which \<^verbatim>\<open>run\<close>
  rewrites, and the rest, which \<^verbatim>\<open>run\<close> never looks at.
\<close>

record 'a parameters =
  options :: props
  others :: 'a

text \<open>
  The plain-data properties of a \<^verbatim>\<open>RunContext\<close>. A handler is a function of the context;
  a HOL record cannot hold functions of itself, so handlers are functions of this part of the
  context, and the two properties that hold handlers (\<^verbatim>\<open>plugin\<close>, \<^verbatim>\<open>command\<close>) are added
  by the extension \<open>runContext\<close> below. \<open>attached\<close> is what extensions hang on the context.
  The back-reference \<^verbatim>\<open>context.runtime\<close> is left out for the same reason.
\<close>

record 'a view =
  pluginName :: "string option"
  commandName :: "string option"
  config :: "(string \<rightharpoonup> props) option"
  parameters :: "'a parameters option"
  result :: "jsval option"
  attached :: props

record 'a command =
  cmd_name :: string
  cmd_alias :: "string list"
  commandPath :: "string list"
  cmd_run :: "('a view \<Rightarrow> error + jsval \<times> 'a view) option"

record 'a plugin =
  plugin_name :: string
  plugin_defaults :: props
  commands :: "'a command list"

record 'a extension =
  ext_name :: string
  ext_setup :: "'a view \<Rightarrow> error + 'a view"

record 'a runContext = "'a view" +
  plugin :: "'a plugin option"
  command :: "'a command option"

text \<open>
  The properties of \<^verbatim>\<open>this\<close> that \<^verbatim>\<open>run\<close> reads. The constructor sets \<^verbatim>\<open>brand\<close>,
  \<^verbatim>\<open>plugins\<close>, \<^verbatim>\<open>extensions\<close>, \<^verbatim>\<open>defaults\<close> and \<^verbatim>\<open>config\<close>; \<^verbatim>\<open>defaultPlugin\<close> is
  read at line 72 and set nowhere in the file, so it is a field that is absent (\<open>None\<close>)
  unless a caller has set it. \<^verbatim>\<open>this.defaults\<close> is tested for truthiness at line 96, so it
  may be absent too.
\<close>

record 'a runtime =
  brand :: string
  plugins :: "'a plugin list"
  extensions :: "'a extension list"
  defaults :: "(string \<rightharpoonup> props) option"
  rt_config :: "string \<rightharpoonup> props"
  defaultPlugin :: "'a plugin option"

text \<open>
  What the module reads from outside itself: the argument vector of the process, the import
  \<^verbatim>\<open>normalizeParams\<close> (its file is not part of the sources), and the value of the identifier
  \<^verbatim>\<open>plugin\<close> in \<^verbatim>\<open>findCommand\<close>. That identifier is neither a parameter of
  \<^verbatim>\<open>findCommand\<close> (they are \<^verbatim>\<open>context\<close> and \<^verbatim>\<open>commandPath\<close>) nor declared in the module, so
  it is looked up in the global scope: \<open>None\<close> is a global scope without it, where reading it
  throws a \<^verbatim>\<open>ReferenceError\<close>.
\<close>

record 'a env =
  argv :: "string list"
  global_plugin :: "'a plugin option"
  normalizeParams :: "string \<Rightarrow> string \<Rightarrow> string list \<Rightarrow> 'a parameters"

section \<open>findCommand\<close>

text \<open>
  The predicate of the \<^verbatim>\<open>find\<close> at lines 220 to 223: the command's path without its last
  segment is the accumulated path, and the token is the command's name or one of its aliases.
\<close>

definition fits :: "string list \<Rightarrow> string \<Rightarrow> 'a command \<Rightarrow> bool" where
  "fits prevPath currName c \<longleftrightarrow>
     butlast (commandPath c) = prevPath \<and> (cmd_name c = currName \<or> currName \<in> set (cmd_alias c))"

text \<open>
  \<^verbatim>\<open>sort((a, b) => a.commandPath.length - b.commandPath.length, plugin.commands)\<close>: a copy
  of the list in ascending order of path length. The sort of the language is stable, so the
  result is the stable insertion sort by that key.
\<close>

definition sorted_commands :: "'a plugin \<Rightarrow> 'a command list" where
  "sorted_commands p = sort_key (\<lambda>c. length (commandPath c)) (commands p)"

text \<open>
  The callback of the \<^verbatim>\<open>reduce\<close> (lines 217 to 232). It reads \<^verbatim>\<open>plugin.commands\<close>, the
  commands of whatever the identifier \<^verbatim>\<open>plugin\<close> is bound to, before it searches.
\<close>

definition walk_step :: "'a plugin option \<Rightarrow> string list \<Rightarrow> string \<Rightarrow> error + string list" where
  "walk_step g prevPath currName =
     (case g of
        None \<Rightarrow> Inl ReferenceError
      | Some plugin' \<Rightarrow>
          (case find (fits prevPath currName) (sorted_commands plugin') of
             Some cmd \<Rightarrow> Inr (commandPath cmd)
           | None \<Rightarrow> Inr prevPath))"

fun reduce :: "('b \<Rightarrow> 'c \<Rightarrow> error + 'b) \<Rightarrow> 'b \<Rightarrow> 'c list \<Rightarrow> error + 'b" where
  "reduce f acc [] = Inr acc"
| "reduce f acc (x # xs) = (case f acc x of Inl e \<Rightarrow> Inl e | Inr acc' \<Rightarrow> reduce f acc' xs)"

text \<open>
  \<^verbatim>\<open>findCommand (context, commandPath)\<close>. \<open>g\<close> is the binding of the identifier
  \<^verbatim>\<open>plugin\<close>; \<open>context\<close> is the first argument, \<open>None\<close> when the caller passes
  \<^verbatim>\<open>undefined\<close>, and then \<^verbatim>\<open>context.commands\<close> at line 213 throws. The result \<open>None\<close> is
  the \<^verbatim>\<open>null\<close> of line 213 or the \<^verbatim>\<open>undefined\<close> of a \<^verbatim>\<open>find\<close> that found nothing. At line
  236 the predicate reads \<^verbatim>\<open>plugin.name\<close> on the first command it is given, and the list is
  not empty there.
\<close>

definition findCommand ::
  "'a plugin option \<Rightarrow> 'a plugin option \<Rightarrow> string list \<Rightarrow> error + 'a command option" where
  "findCommand g context path =
     (case context of
        None \<Rightarrow> Inl TypeError
      | Some ctx \<Rightarrow>
          if commands ctx = [] then Inr None
          else
            (case reduce (walk_step g) [] path of
               Inl e \<Rightarrow> Inl e
             | Inr finalCommandPath \<Rightarrow>
                 if length finalCommandPath = 0 then
                   (case g of
                      None \<Rightarrow> Inl ReferenceError
                    | Some plugin' \<Rightarrow>
                        Inr (find (\<lambda>c. commandPath c = [plugin_name plugin']) (commands ctx)))
                 else Inr (find (\<lambda>c. commandPath c = finalCommandPath) (commands ctx))))"

section \<open>run\<close>

text \<open>
  The first argument of \<^verbatim>\<open>run\<close>: left out (or \<^verbatim>\<open>undefined\<close>, \<^verbatim>\<open>null\<close>), a string, or an
  array of tokens.
\<close>

datatype rawCommand = Absent | Str string | Arr "string list"

definition COMMAND_DELIMITER :: char where
  "COMMAND_DELIMITER = CHR '' ''"

text \<open>
  \<^verbatim>\<open>String.prototype.split\<close> with a one-character separator: the pieces between the
  separators, empty pieces included, and one empty piece for the empty string.
\<close>

fun split :: "char \<Rightarrow> string \<Rightarrow> string list" where
  "split d [] = [[]]"
| "split d (c # cs) =
     (if c = d then [] # split d cs
      else (case split d cs of w # ws \<Rightarrow> (c # w) # ws | [] \<Rightarrow> [[c]]))"

text \<open>
  Lines 59 to 64. \<^verbatim>\<open>rawCommand || process.argv\<close> takes the argument vector when the
  argument is falsy, and the empty string is falsy, an array never. A string is split;
  \<^verbatim>\<open>equals\<close> is structural equality, so any array equal to the argument vector loses its
  first two entries.
\<close>

definition commandArray0 :: "'a env \<Rightarrow> rawCommand \<Rightarrow> string list" where
  "commandArray0 e rawCommand =
     (let commandArray =
            (case rawCommand of
               Absent \<Rightarrow> argv e
             | Str s \<Rightarrow> if s = [] then argv e else split COMMAND_DELIMITER s
             | Arr ts \<Rightarrow> ts)
      in if commandArray = argv e then drop 2 commandArray else commandArray)"

text \<open>\<^verbatim>\<open>new RunContext()\<close>: nothing is set yet.\<close>

definition RunContext :: "'a runContext" where
  "RunContext =
     \<lparr>pluginName = None, commandName = None, config = None, parameters = None,
      result = None, attached = Map.empty, plugin = None, command = None\<rparr>"

text \<open>
  Modelled from the spec: the getter \<^verbatim>\<open>pluginNames\<close> of the runtime is read at line 73
  and is not in the sources. The spec has the plugin registry as an ordered collection of
  loaded plugins, queried by name: the names are those of the loaded plugins, in order.
\<close>

definition pluginNames :: "'a runtime \<Rightarrow> string list" where
  "pluginNames this = map plugin_name (plugins this)"

text \<open>
  Modelled from the spec: the method \<^verbatim>\<open>findPlugin\<close> of the runtime is called at line 86
  and is not in the sources. The spec has it resolve the plugin by its name and fail
  softly, an unknown name yielding a missing plugin: the first loaded plugin of that name,
  or none.
\<close>

definition findPlugin :: "'a runtime \<Rightarrow> string \<Rightarrow> 'a plugin option" where
  "findPlugin this n = find (\<lambda>p. plugin_name p = n) (plugins this)"

text \<open>
  Lines 66 to 84: the plugin name and the command name from the tokens, and the tokens that
  are left. \<^verbatim>\<open>!commandName\<close> holds for a missing first token and for an empty one;
  \<^verbatim>\<open>commandArray[1] || commandName\<close> falls back for a missing second token and for an
  empty one.
\<close>

definition findNames :: "'a runtime \<Rightarrow> string list \<Rightarrow> 'a runContext \<times> string list" where
  "findNames this commandArray =
     (case commandArray of
        [] \<Rightarrow>
          (RunContext\<lparr>pluginName := Some (brand this), commandName := Some (brand this),
                      plugin := defaultPlugin this\<rparr>, commandArray)
      | commandName' # rest \<Rightarrow>
          if commandName' = [] then
            (RunContext\<lparr>pluginName := Some (brand this), commandName := Some (brand this),
                        plugin := defaultPlugin this\<rparr>, commandArray)
          else if commandName' \<in> set (pluginNames this) then
            (RunContext\<lparr>pluginName := Some commandName',
                        commandName :=
                          Some (case rest of
                                  [] \<Rightarrow> commandName'
                                | second # _ \<Rightarrow> if second = [] then commandName' else second)\<rparr>,
             rest)
          else
            (RunContext\<lparr>pluginName := Some (brand this), commandName := Some commandName'\<rparr>,
             commandArray))"

text \<open>Line 86: the plugin already on the context, else the one of that name.\<close>

definition resolvePlugin :: "'a runtime \<Rightarrow> 'a runContext \<Rightarrow> 'a plugin option" where
  "resolvePlugin this c =
     (case plugin c of
        Some p \<Rightarrow> Some p
      | None \<Rightarrow> (case pluginName c of None \<Rightarrow> None | Some n \<Rightarrow> findPlugin this n))"

text \<open>
  \<^verbatim>\<open>merge\<close> of Ramda: a new object with the properties of the first and then of the second,
  so the second wins where both have a key. \<^verbatim>\<open>clone\<close> is a deep copy, which is the value
  itself here.
\<close>

definition merge :: "props \<Rightarrow> props \<Rightarrow> props" where
  "merge l r = l ++ r"

definition clone :: "'b \<Rightarrow> 'b" where
  "clone x = x"

text \<open>
  Line 96: \<^verbatim>\<open>(this.defaults && this.defaults[context.plugin.name]) || {}\<close>, the defaults
  that the runtime holds for a plugin name, the empty object when it holds none.
\<close>

definition overrides :: "'a runtime \<Rightarrow> string \<Rightarrow> props" where
  "overrides this n =
     (case defaults this of
        None \<Rightarrow> Map.empty
      | Some d \<Rightarrow> (case d n of None \<Rightarrow> Map.empty | Some o' \<Rightarrow> o'))"

text \<open>Lines 92 to 97.\<close>

definition setupConfig :: "'a runtime \<Rightarrow> 'a plugin \<Rightarrow> string \<rightharpoonup> props" where
  "setupConfig this p =
     (clone (rt_config this))
       (plugin_name p \<mapsto> merge (plugin_defaults p) (overrides this (plugin_name p)))"

text \<open>Lines 99 to 105; \<^verbatim>\<open>options || {}\<close> is the empty object for a missing argument.\<close>

definition normalizedParameters ::
  "'a env \<Rightarrow> 'a plugin \<Rightarrow> 'a command \<Rightarrow> string list \<Rightarrow> props option \<Rightarrow> 'a parameters" where
  "normalizedParameters e p c commandArray opts =
     (let ps = normalizeParams e (plugin_name p) (cmd_name c) commandArray
      in ps\<lparr>options := merge (options ps) (case opts of None \<Rightarrow> Map.empty | Some o' \<Rightarrow> o')\<rparr>)"

text \<open>
  The calls that \<^verbatim>\<open>run\<close> makes into handlers, in the order it makes them: the
  \<^verbatim>\<open>setup\<close> of the extension of that name, and the \<^verbatim>\<open>run\<close> of the command.
\<close>

datatype call = SetupCall string | RunCall

definition view_of :: "'a runContext \<Rightarrow> 'a view" where
  "view_of c =
     \<lparr>pluginName = pluginName c, commandName = commandName c, config = config c,
      parameters = parameters c, result = result c, attached = attached c\<rparr>"

definition put_view :: "'a view \<Rightarrow> 'a runContext \<Rightarrow> 'a runContext" where
  "put_view v c =
     c\<lparr>pluginName := pluginName v, commandName := commandName v, config := config v,
       parameters := parameters v, result := result v, attached := attached v\<rparr>"

text \<open>
  Line 110: \<^verbatim>\<open>forEach(extension => extension.setup(context), this.extensions)\<close>. A
  \<^verbatim>\<open>setup\<close> that throws ends the loop; the later ones are not called.
\<close>

fun forEach_setup :: "'a extension list \<Rightarrow> 'a view \<Rightarrow> call list \<times> (error + 'a view)" where
  "forEach_setup [] v = ([], Inr v)"
| "forEach_setup (x # xs) v =
     (case ext_setup x v of
        Inl err \<Rightarrow> ([SetupCall (ext_name x)], Inl err)
      | Inr v' \<Rightarrow>
          (case forEach_setup xs v' of (cs, res) \<Rightarrow> (SetupCall (ext_name x) # cs, res)))"

text \<open>Lines 107 to 116.\<close>

definition kickItOff ::
  "'a runtime \<Rightarrow> 'a command \<Rightarrow> 'a runContext \<Rightarrow> call list \<times> (error + 'a runContext)" where
  "kickItOff this c context =
     (case cmd_run c of
        None \<Rightarrow> ([], Inr context)
      | Some behaviour \<Rightarrow>
          (case forEach_setup (extensions this) (view_of context) of
             (cs, Inl err) \<Rightarrow> (cs, Inl err)
           | (cs, Inr v) \<Rightarrow>
               (case behaviour v of
                  Inl err \<Rightarrow> (cs @ [RunCall], Inl err)
                | Inr (res, v') \<Rightarrow>
                    (cs @ [RunCall], Inr ((put_view v' context)\<lparr>result := Some res\<rparr>)))))"

text \<open>
  \<^verbatim>\<open>run (rawCommand, options)\<close>, with the module's surroundings \<open>e\<close> and the receiver
  \<open>this\<close>. The result is the calls made into handlers and then what the promise settles to:
  \<open>Inl\<close> a rejection, \<open>Inr\<close> the context.
\<close>

definition run ::
  "'a env \<Rightarrow> 'a runtime \<Rightarrow> rawCommand \<Rightarrow> props option \<Rightarrow> call list \<times> (error + 'a runContext)" where
  "run e this rawCommand opts =
     (case findNames this (commandArray0 e rawCommand) of
        (context0, commandArray) \<Rightarrow>
          (let context1 = context0\<lparr>plugin := resolvePlugin this context0\<rparr>
           in case findCommand (global_plugin e) (plugin context1) commandArray of
                Inl err \<Rightarrow> ([], Inl err)
              | Inr found \<Rightarrow>
                  (let context2 = context1\<lparr>command := found\<rparr>
                   in case (plugin context2, command context2) of
                        (Some p, Some c) \<Rightarrow>
                          kickItOff this c
                            (context2
                               \<lparr>config := Some (setupConfig this p),
                                parameters := Some (normalizedParameters e p c commandArray opts)\<rparr>)
                      | _ \<Rightarrow> ([], Inr context2))))"

section \<open>Example data\<close>

text \<open>
  A plugin whose alias is ambiguous: the command \<^verbatim>\<open>f\<close>, and the command \<^verbatim>\<open>foo\<close> with the
  alias \<^verbatim>\<open>f\<close>, both at the top level.
\<close>

definition cmd_f :: "string list command" where
  "cmd_f = \<lparr>cmd_name = ''f'', cmd_alias = [], commandPath = [''f''], cmd_run = None\<rparr>"

definition cmd_foo :: "string list command" where
  "cmd_foo = \<lparr>cmd_name = ''foo'', cmd_alias = [''f''], commandPath = [''foo''], cmd_run = None\<rparr>"

definition ambiguous :: "string list plugin" where
  "ambiguous =
     \<lparr>plugin_name = ''ambiguous'', plugin_defaults = Map.empty, commands = [cmd_f, cmd_foo]\<rparr>"

text \<open>
  The plugin \<^verbatim>\<open>args\<close> of the tests: its defaults have the colour blue, its command
  \<^verbatim>\<open>config\<close> (alias \<^verbatim>\<open>c\<close>) returns \<^verbatim>\<open>context.config.args.color\<close>, and its default
  command, named like the plugin, has nothing to run.
\<close>

definition read_color :: "string list view \<Rightarrow> error + jsval \<times> string list view" where
  "read_color v =
     (case config v of
        None \<Rightarrow> Inl TypeError
      | Some cfg \<Rightarrow>
          (case cfg ''args'' of
             None \<Rightarrow> Inl TypeError
           | Some entry \<Rightarrow>
               Inr (case entry ''color'' of None \<Rightarrow> JUndefined | Some x \<Rightarrow> x, v)))"

definition cmd_args :: "string list command" where
  "cmd_args = \<lparr>cmd_name = ''args'', cmd_alias = [], commandPath = [''args''], cmd_run = None\<rparr>"

definition cmd_config :: "string list command" where
  "cmd_config =
     \<lparr>cmd_name = ''config'', cmd_alias = [''c''], commandPath = [''config''],
      cmd_run = Some read_color\<rparr>"

definition args :: "string list plugin" where
  "args =
     \<lparr>plugin_name = ''args'', plugin_defaults = [''color'' \<mapsto> JStr ''blue''],
      commands = [cmd_args, cmd_config]\<rparr>"

text \<open>A plugin without commands.\<close>

definition quiet :: "string list plugin" where
  "quiet = \<lparr>plugin_name = ''quiet'', plugin_defaults = Map.empty, commands = []\<rparr>"

text \<open>
  Two extensions. The second records on the context whether the first had been there
  before it.
\<close>

definition ext_strings :: "string list extension" where
  "ext_strings =
     \<lparr>ext_name = ''strings'',
      ext_setup = (\<lambda>v. Inr (v\<lparr>attached := (attached v)(''strings'' \<mapsto> JBool True)\<rparr>))\<rparr>"

definition ext_print :: "string list extension" where
  "ext_print =
     \<lparr>ext_name = ''print'',
      ext_setup =
        (\<lambda>v. Inr (v\<lparr>attached :=
                        (attached v)(''print'' \<mapsto>
                           (case attached v ''strings'' of
                              None \<Rightarrow> JStr ''before strings''
                            | Some _ \<Rightarrow> JStr ''after strings''))\<rparr>))\<rparr>"

text \<open>
  A normaliser that derives two options and keeps the tokens, and the surroundings of the
  module: a process started as \<^verbatim>\<open>node cli.js\<close> whose global scope has no \<^verbatim>\<open>plugin\<close>, and
  one where a global \<^verbatim>\<open>plugin\<close> holds the plugin \<^verbatim>\<open>args\<close>.
\<close>

definition flag_params :: "string \<Rightarrow> string \<Rightarrow> string list \<Rightarrow> string list parameters" where
  "flag_params p c ts = \<lparr>options = [''force'' \<mapsto> JBool False, ''name'' \<mapsto> JStr c], others = ts\<rparr>"

definition node_env :: "string list env" where
  "node_env = \<lparr>argv = [''node'', ''cli.js''], global_plugin = None, normalizeParams = flag_params\<rparr>"

definition bound_env :: "string list env" where
  "bound_env =
     \<lparr>argv = [''node'', ''cli.js''], global_plugin = Some args, normalizeParams = flag_params\<rparr>"

text \<open>The second process again, started as \<^verbatim>\<open>node cli.js args config\<close>.\<close>

definition typed_env :: "string list env" where
  "typed_env =
     \<lparr>argv = [''node'', ''cli.js'', ''args'', ''config''], global_plugin = Some args,
      normalizeParams = flag_params\<rparr>"

text \<open>
  Runtimes: one with no plugin at all, one with the plugin \<^verbatim>\<open>quiet\<close>, one with the plugin
  \<^verbatim>\<open>args\<close> and the two extensions, and that one again with the override of the test
  \<^verbatim>\<open>project config trumps plugin config\<close>.
\<close>

definition bare :: "string list runtime" where
  "bare =
     \<lparr>brand = ''movie'', plugins = [], extensions = [], defaults = Some Map.empty,
      rt_config = Map.empty, defaultPlugin = None\<rparr>"

definition hushed :: "string list runtime" where
  "hushed =
     \<lparr>brand = ''movie'', plugins = [quiet], extensions = [], defaults = Some Map.empty,
      rt_config = Map.empty, defaultPlugin = None\<rparr>"

definition cli :: "string list runtime" where
  "cli =
     \<lparr>brand = ''args'', plugins = [args], extensions = [ext_strings, ext_print],
      defaults = Some Map.empty, rt_config = Map.empty, defaultPlugin = None\<rparr>"

definition cli_red :: "string list runtime" where
  "cli_red =
     \<lparr>brand = ''args'', plugins = [args], extensions = [ext_strings, ext_print],
      defaults = Some [''args'' \<mapsto> [''color'' \<mapsto> JStr ''red'']], rt_config = Map.empty,
      defaultPlugin = None\<rparr>"

text \<open>
  A second plugin, \<^verbatim>\<open>paint\<close>, with two defaults and its default command, a process whose
  global \<^verbatim>\<open>plugin\<close> holds it, and a runtime with both plugins, a base configuration and
  defaults for each plugin's name.
\<close>

definition cmd_paint :: "string list command" where
  "cmd_paint = \<lparr>cmd_name = ''paint'', cmd_alias = [], commandPath = [''paint''], cmd_run = None\<rparr>"

definition paint :: "string list plugin" where
  "paint =
     \<lparr>plugin_name = ''paint'',
      plugin_defaults = [''color'' \<mapsto> JStr ''blue'', ''size'' \<mapsto> JNum 2],
      commands = [cmd_paint]\<rparr>"

definition paint_env :: "string list env" where
  "paint_env =
     \<lparr>argv = [''node'', ''cli.js''], global_plugin = Some paint, normalizeParams = flag_params\<rparr>"

definition studio :: "string list runtime" where
  "studio =
     \<lparr>brand = ''args'', plugins = [args, paint], extensions = [],
      defaults = Some [''args'' \<mapsto> [''color'' \<mapsto> JStr ''red''],
                       ''paint'' \<mapsto> [''color'' \<mapsto> JStr ''green'']],
      rt_config = [''shared'' \<mapsto> [''debug'' \<mapsto> JBool True]],
      defaultPlugin = None\<rparr>"

section \<open>Facts about the list functions\<close>

lemma find_filter_hd:
  "find P xs = (case filter P xs of [] \<Rightarrow> None | x # _ \<Rightarrow> Some x)"
  by (induction xs) auto

lemma find_unique:
  assumes "c \<in> set xs" and "P c" and "\<forall>d \<in> set xs. P d \<longrightarrow> d = c"
  shows "find P xs = Some c"
proof -
  from assms(1,2) have "filter P xs \<noteq> []"
    by (simp add: filter_empty_conv) blast
  then obtain d ds where dd: "filter P xs = d # ds"
    by (cases "filter P xs") auto
  then have "d \<in> set (filter P xs)" by simp
  with assms(3) have "d = c" by simp
  with dd show ?thesis by (simp add: find_filter_hd)
qed

lemma reduce_append:
  "reduce f acc (xs @ ys) =
     (case reduce f acc xs of Inl e \<Rightarrow> Inl e | Inr acc' \<Rightarrow> reduce f acc' ys)"
  by (induction xs arbitrary: acc) (auto split: sum.splits)

text \<open>
  The search of a step looks at the commands that fit in ascending order of path length:
  what it finds is the head of the fitting commands, sorted.
\<close>

lemma find_sorted_commands:
  assumes "filter (fits prevPath currName) (commands p) \<noteq> []"
  shows "\<exists>c rest.
           sort_key (\<lambda>c. length (commandPath c)) (filter (fits prevPath currName) (commands p))
             = c # rest
           \<and> find (fits prevPath currName) (sorted_commands p) = Some c"
proof -
  let ?f = "\<lambda>c::'a command. length (commandPath c)"
  let ?cands = "filter (fits prevPath currName) (commands p)"
  have "set (sort_key ?f ?cands) = set ?cands" by (rule set_sort)
  with assms have "sort_key ?f ?cands \<noteq> []"
    by (simp only: set_empty [symmetric] not_False_eq_True)
  then obtain c rest where cr: "sort_key ?f ?cands = c # rest"
    by (cases "sort_key ?f ?cands") auto
  have "filter (fits prevPath currName) (sorted_commands p) = c # rest"
    by (simp add: sorted_commands_def filter_sort cr)
  then have "find (fits prevPath currName) (sorted_commands p) = Some c"
    by (simp add: find_filter_hd)
  with cr show ?thesis by blast
qed

lemma walk_step_unique:
  assumes c: "c \<in> set (commands p)"
    and fit: "fits prevPath t c"
    and uniq: "\<forall>d \<in> set (commands p). fits prevPath t d \<longrightarrow> d = c"
  shows "walk_step (Some p) prevPath t = Inr (commandPath c)"
proof -
  have "set (sorted_commands p) = set (commands p)"
    by (simp add: sorted_commands_def)
  with c uniq have "find (fits prevPath t) (sorted_commands p) = Some c"
    by (intro find_unique fit) simp_all
  then show ?thesis by (simp add: walk_step_def)
qed

section \<open>The model at the example data\<close>

lemmas fixture_defs =
  bound_env_def node_env_def cli_def cli_red_def bare_def hushed_def args_def quiet_def
  cmd_args_def cmd_config_def read_color_def ext_strings_def ext_print_def flag_params_def
  typed_env_def cmd_paint_def paint_def paint_env_def studio_def

lemmas run_defs =
  run_def commandArray0_def COMMAND_DELIMITER_def findNames_def pluginNames_def
  resolvePlugin_def findPlugin_def RunContext_def findCommand_def walk_step_def
  sorted_commands_def fits_def setupConfig_def overrides_def merge_def clone_def
  normalizedParameters_def kickItOff_def view_of_def put_view_def

lemma names_args_config:
  "findNames cli (commandArray0 bound_env (Str ''args config''))
     = (RunContext\<lparr>pluginName := Some ''args'', commandName := Some ''config''\<rparr>, [''config''])"
  by (simp add: commandArray0_def COMMAND_DELIMITER_def findNames_def pluginNames_def
      bound_env_def cli_def args_def)

lemma names_args:
  "findNames cli (commandArray0 bound_env (Arr [''args'']))
     = (RunContext\<lparr>pluginName := Some ''args'', commandName := Some ''args''\<rparr>, [])"
  by (simp add: commandArray0_def findNames_def pluginNames_def bound_env_def cli_def args_def)

lemma resolve_args:
  "resolvePlugin cli (RunContext\<lparr>pluginName := Some ''args'', commandName := Some cn\<rparr>) = Some args"
  by (simp add: resolvePlugin_def RunContext_def findPlugin_def cli_def args_def)

lemma find_config:
  "findCommand (global_plugin bound_env) (Some args) [''config''] = Inr (Some cmd_config)"
  by (simp add: findCommand_def walk_step_def sorted_commands_def fits_def bound_env_def
      args_def cmd_args_def cmd_config_def)

lemma find_default:
  "findCommand (global_plugin bound_env) (Some args) [] = Inr (Some cmd_args)"
  by (simp add: findCommand_def bound_env_def args_def cmd_args_def cmd_config_def)

text \<open>
  The two tests of the configuration: the command \<^verbatim>\<open>config\<close> returns blue, and red under
  the override.
\<close>

lemma result_blue:
  "(case snd (run bound_env cli (Str ''config'') None) of
      Inr c \<Rightarrow> result c | Inl _ \<Rightarrow> None) = Some (JStr ''blue'')"
  by (simp add: run_defs fixture_defs)

lemma result_red:
  "(case snd (run bound_env cli_red (Str ''config'') None) of
      Inr c \<Rightarrow> result c | Inl _ \<Rightarrow> None) = Some (JStr ''red'')"
  by (simp add: run_defs fixture_defs)

text \<open>
  The plugin \<^verbatim>\<open>paint\<close> in the runtime that holds defaults for both plugins: the colour is
  the one the runtime holds under the name \<^verbatim>\<open>paint\<close>, the size is the plugin's own, the
  base configuration is kept, and nothing is entered for \<^verbatim>\<open>args\<close>.
\<close>

lemma names_paint:
  "findNames studio (commandArray0 paint_env (Arr [''paint'']))
     = (RunContext\<lparr>pluginName := Some ''paint'', commandName := Some ''paint''\<rparr>, [])"
  by (simp add: commandArray0_def findNames_def pluginNames_def cmd_paint_def paint_def paint_env_def studio_def args_def)

lemma resolve_paint:
  "resolvePlugin studio (RunContext\<lparr>pluginName := Some ''paint'', commandName := Some ''paint''\<rparr>)
     = Some paint"
  by (simp add: resolvePlugin_def RunContext_def findPlugin_def cmd_paint_def paint_def paint_env_def studio_def args_def)

lemma find_paint:
  "findCommand (global_plugin paint_env) (Some paint) [] = Inr (Some cmd_paint)"
  by (simp add: findCommand_def cmd_paint_def paint_def paint_env_def studio_def)

lemma config_paint:
  "(case snd (run paint_env studio (Arr [''paint'']) None) of
      Inr c \<Rightarrow>
        (case config c of
           Some cfg \<Rightarrow>
             (map_option (\<lambda>m. (m ''color'', m ''size'')) (cfg ''paint''),
              map_option (\<lambda>m. m ''debug'') (cfg ''shared''),
              map_option (\<lambda>m. m ''color'') (cfg ''args''))
         | None \<Rightarrow> (None, None, None))
    | Inl _ \<Rightarrow> (None, None, None))
   = (Some (Some (JStr ''green''), Some (JNum 2)), Some (Some (JBool True)), None)"
  by (simp add: run_defs fixture_defs cmd_paint_def paint_def paint_env_def studio_def)

lemma config_args_blue:
  "(case snd (run bound_env cli (Str ''config'') None) of
      Inr c \<Rightarrow> (case config c of Some cfg \<Rightarrow> map_option (\<lambda>m. m ''color'') (cfg ''args'') | None \<Rightarrow> None)
    | Inl _ \<Rightarrow> None) = Some (Some (JStr ''blue''))"
  by (simp add: run_defs fixture_defs)

lemma config_args_red:
  "(case snd (run bound_env cli_red (Str ''config'') None) of
      Inr c \<Rightarrow> (case config c of Some cfg \<Rightarrow> map_option (\<lambda>m. m ''color'') (cfg ''args'') | None \<Rightarrow> None)
    | Inl _ \<Rightarrow> None) = Some (Some (JStr ''red''))"
  by (simp add: run_defs fixture_defs)

section \<open>The choice a step of the walk makes\<close>

text \<open>
  Where the identifier \<^verbatim>\<open>plugin\<close> is bound, a step of the walk, with the accumulated path
  \<open>prevPath\<close> and the token \<open>currName\<close>, does what it is written for: whenever commands of
  \<^verbatim>\<open>plugin.commands\<close> fit (by name or alias), the step moves to the path of one of them,
  \<open>c\<close>; no fitting command has a shorter path than \<open>c\<close>, and \<open>c\<close> is the first in the order
  of the list among the fitting commands with a path of that length.
\<close>

lemma step_prefers_shortest_then_first:
  assumes "filter (fits prevPath currName) (commands p) \<noteq> []"
  shows "\<exists>c. walk_step (Some p) prevPath currName = Inr (commandPath c)
           \<and> c \<in> set (filter (fits prevPath currName) (commands p))
           \<and> (\<forall>d \<in> set (filter (fits prevPath currName) (commands p)).
                 length (commandPath c) \<le> length (commandPath d))
           \<and> find (\<lambda>d. length (commandPath d) = length (commandPath c))
                 (filter (fits prevPath currName) (commands p)) = Some c"
proof -
  let ?f = "\<lambda>c::'a command. length (commandPath c)"
  let ?cands = "filter (fits prevPath currName) (commands p)"
  from find_sorted_commands [OF assms] obtain c rest
    where cr: "sort_key ?f ?cands = c # rest"
      and fc: "find (fits prevPath currName) (sorted_commands p) = Some c" by blast
  have step: "walk_step (Some p) prevPath currName = Inr (commandPath c)"
    by (simp add: walk_step_def fc)
  have "c \<in> set (sort_key ?f ?cands)" by (simp add: cr)
  then have mem: "c \<in> set ?cands" by (simp only: set_sort)
  have srt: "sorted (map ?f (sort_key ?f ?cands))" by (rule sorted_sort_key)
  have least: "\<forall>d \<in> set ?cands. ?f c \<le> ?f d"
  proof
    fix d assume "d \<in> set ?cands"
    then have "d \<in> set (sort_key ?f ?cands)" by (simp only: set_sort)
    with cr have "d = c \<or> d \<in> set rest" by simp
    moreover from srt cr have "\<forall>x \<in> set rest. ?f c \<le> ?f x" by simp
    ultimately show "?f c \<le> ?f d" by auto
  qed
  have "filter (\<lambda>d. ?f d = ?f c) ?cands = filter (\<lambda>d. ?f d = ?f c) (sort_key ?f ?cands)"
    by (rule sort_key_stable [symmetric])
  also have "\<dots> = c # filter (\<lambda>d. ?f d = ?f c) rest" by (simp add: cr)
  finally have first: "find (\<lambda>d. ?f d = ?f c) ?cands = Some c"
    by (simp add: find_filter_hd)
  show ?thesis
    by (rule exI [of _ c]) (intro conjI step mem least first)
qed

text \<open>
  In the ambiguous plugin the token \<^verbatim>\<open>f\<close> fits two commands with paths of one length, and
  the step takes the first of them.
\<close>

lemma step_prefers_shortest_then_first_example:
  "filter (fits [] ''f'') (commands ambiguous) = [cmd_f, cmd_foo]
   \<and> walk_step (Some ambiguous) [] ''f'' = Inr (commandPath cmd_f)
   \<and> (\<exists>c. walk_step (Some ambiguous) [] ''f'' = Inr (commandPath c)
           \<and> c \<in> set (filter (fits [] ''f'') (commands ambiguous))
           \<and> (\<forall>d \<in> set (filter (fits [] ''f'') (commands ambiguous)).
                 length (commandPath c) \<le> length (commandPath d))
           \<and> find (\<lambda>d. length (commandPath d) = length (commandPath c))
                 (filter (fits [] ''f'') (commands ambiguous)) = Some c)"
proof -
  have cands: "filter (fits [] ''f'') (commands ambiguous) = [cmd_f, cmd_foo]"
    by (simp add: fits_def ambiguous_def cmd_f_def cmd_foo_def)
  then have ne: "filter (fits [] ''f'') (commands ambiguous) \<noteq> []" by simp
  have step: "walk_step (Some ambiguous) [] ''f'' = Inr (commandPath cmd_f)"
    by (simp add: walk_step_def sorted_commands_def fits_def ambiguous_def cmd_f_def cmd_foo_def)
  from cands step step_prefers_shortest_then_first [OF ne] show ?thesis
    by (intro conjI)
qed

text \<open>
  Claim C4. The claim is that at every step of the walk in \<^verbatim>\<open>findCommand\<close>, when more
  than one command matches, the one with the shortest path is chosen, the first found among
  equals. In the module as it is, no scope binds \<^verbatim>\<open>plugin\<close>, and the step reads
  \<^verbatim>\<open>plugin.commands\<close> (line 225) before it searches: with the two commands of the
  ambiguous plugin matching the token \<^verbatim>\<open>f\<close>, the step throws a \<^verbatim>\<open>ReferenceError\<close>, and so
  does \<^verbatim>\<open>findCommand\<close>; no command is chosen.
\<close>

theorem step_unbound_raises:
  "filter (fits [] ''f'') (commands ambiguous) = [cmd_f, cmd_foo]
   \<and> walk_step None [] ''f'' = Inl ReferenceError
   \<and> reduce (walk_step None) [] [''f''] = Inl ReferenceError
   \<and> findCommand None (Some ambiguous) [''f''] = Inl ReferenceError"
  by (simp add: findCommand_def walk_step_def fits_def ambiguous_def cmd_f_def cmd_foo_def)

section \<open>Aliases\<close>

text \<open>
  Claim C3, as amended. Let the identifier \<^verbatim>\<open>plugin\<close> of \<^verbatim>\<open>findCommand\<close> denote the plugin
  that is searched, let \<open>c\<close> be one of its commands and \<open>a\<close> one of the aliases of \<open>c\<close>, and
  let no other command with the parent path of \<open>c\<close> have \<open>a\<close> or the name of \<open>c\<close> as its name
  or among its aliases. Then for tokens \<open>pre\<close> that lead the walk to the parent path of
  \<open>c\<close>, and any tokens \<open>post\<close>, resolving with the alias in the place of the name gives the
  same result, and the alias leads the walk to the path of \<open>c\<close>.
\<close>

theorem alias_resolves_like_name:
  assumes c: "c \<in> set (commands p)" and a: "a \<in> set (cmd_alias c)"
    and uniq: "\<forall>d \<in> set (commands p).
                 butlast (commandPath d) = butlast (commandPath c)
                 \<and> (cmd_name d = a \<or> a \<in> set (cmd_alias d)
                      \<or> cmd_name d = cmd_name c \<or> cmd_name c \<in> set (cmd_alias d))
                 \<longrightarrow> d = c"
    and pre: "reduce (walk_step (Some p)) [] pre = Inr (butlast (commandPath c))"
  shows "findCommand (Some p) (Some p) (pre @ a # post)
           = findCommand (Some p) (Some p) (pre @ cmd_name c # post)
         \<and> reduce (walk_step (Some p)) [] (pre @ [a]) = Inr (commandPath c)"
proof -
  let ?P = "butlast (commandPath c)"
  have sa: "walk_step (Some p) ?P a = Inr (commandPath c)"
    using c a uniq by (intro walk_step_unique) (auto simp: fits_def)
  have sn: "walk_step (Some p) ?P (cmd_name c) = Inr (commandPath c)"
    using c uniq by (intro walk_step_unique) (auto simp: fits_def)
  have "reduce (walk_step (Some p)) [] (pre @ a # post)
          = reduce (walk_step (Some p)) [] (pre @ cmd_name c # post)"
    by (simp add: reduce_append pre sa sn)
  moreover have "reduce (walk_step (Some p)) [] (pre @ [a]) = Inr (commandPath c)"
    by (simp add: reduce_append pre sa)
  ultimately show ?thesis by (simp add: findCommand_def)
qed

text \<open>The alias \<^verbatim>\<open>c\<close> of the command \<^verbatim>\<open>config\<close>.\<close>

theorem alias_resolves_like_name_witness:
  "findCommand (Some args) (Some args) [''c''] = Inr (Some cmd_config)
   \<and> findCommand (Some args) (Some args) [''c'']
       = findCommand (Some args) (Some args) [cmd_name cmd_config]"
proof -
  have c: "cmd_config \<in> set (commands args)" by (simp add: args_def)
  have a: "''c'' \<in> set (cmd_alias cmd_config)" by (simp add: cmd_config_def)
  have uniq: "\<forall>d \<in> set (commands args).
                 butlast (commandPath d) = butlast (commandPath cmd_config)
                 \<and> (cmd_name d = ''c'' \<or> ''c'' \<in> set (cmd_alias d)
                      \<or> cmd_name d = cmd_name cmd_config \<or> cmd_name cmd_config \<in> set (cmd_alias d))
                 \<longrightarrow> d = cmd_config"
    by (simp add: args_def cmd_args_def cmd_config_def)
  have pre: "reduce (walk_step (Some args)) [] [] = Inr (butlast (commandPath cmd_config))"
    by (simp add: cmd_config_def)
  have r: "findCommand (Some args) (Some args) [''c''] = Inr (Some cmd_config)"
    by (simp add: findCommand_def walk_step_def sorted_commands_def fits_def args_def
        cmd_args_def cmd_config_def)
  from alias_resolves_like_name [OF c a uniq pre, of "[]"] r show ?thesis by simp
qed

text \<open>
  Claim C3 as the spec states it, for every command with aliases, fails where an alias is
  also the name of a command that the search meets first: the alias \<^verbatim>\<open>f\<close> of \<^verbatim>\<open>foo\<close>
  resolves to the command \<^verbatim>\<open>f\<close>.
\<close>

theorem alias_ambiguous_counterexample:
  "cmd_foo \<in> set (commands ambiguous) \<and> ''f'' \<in> set (cmd_alias cmd_foo)
   \<and> findCommand (Some ambiguous) (Some ambiguous) [''f''] = Inr (Some cmd_f)
   \<and> findCommand (Some ambiguous) (Some ambiguous) [cmd_name cmd_foo] = Inr (Some cmd_foo)
   \<and> findCommand (Some ambiguous) (Some ambiguous) [''f'']
       \<noteq> findCommand (Some ambiguous) (Some ambiguous) [cmd_name cmd_foo]"
  by (simp add: findCommand_def walk_step_def sorted_commands_def fits_def ambiguous_def
      cmd_f_def cmd_foo_def)

section \<open>The default command\<close>

text \<open>
  Where the identifier \<^verbatim>\<open>plugin\<close> denotes the plugin that is searched, tokens that fit no
  command at the top level leave the accumulated path empty, and the result is the command
  whose path is the plugin's name alone, or none.
\<close>

lemma findCommand_nothing_fits:
  assumes "\<forall>t \<in> set path. \<forall>c \<in> set (commands p). \<not> fits [] t c"
  shows "findCommand (Some p) (Some p) path
           = Inr (find (\<lambda>c. commandPath c = [plugin_name p]) (commands p))"
proof -
  have step: "walk_step (Some p) [] t = Inr []" if "t \<in> set path" for t
  proof -
    from that assms have "find (fits [] t) (sorted_commands p) = None"
      by (simp add: find_None_iff sorted_commands_def)
    then show ?thesis by (simp add: walk_step_def)
  qed
  have "set ts \<subseteq> set path \<Longrightarrow> reduce (walk_step (Some p)) [] ts = Inr []" for ts
    by (induction ts) (simp_all add: step)
  then have "reduce (walk_step (Some p)) [] path = Inr []" by simp
  then show ?thesis by (simp add: findCommand_def)
qed

lemma findCommand_empty_path:
  "findCommand (Some p) (Some p) [] = Inr (find (\<lambda>c. commandPath c = [plugin_name p]) (commands p))"
  by (simp add: findCommand_def)

text \<open>
  Where no scope binds \<^verbatim>\<open>plugin\<close>, the callback throws at its first call, and
  \<^verbatim>\<open>findCommand\<close> returns only for a plugin without commands: it never returns a command.
\<close>

lemma reduce_unbound:
  "reduce (walk_step None) [] path = (if path = [] then Inr [] else Inl ReferenceError)"
  by (cases path) (simp_all add: walk_step_def)

lemma findCommand_unbound:
  "findCommand None context path =
     (case context of
        None \<Rightarrow> Inl TypeError
      | Some ctx \<Rightarrow> if commands ctx = [] then Inr None else Inl ReferenceError)"
  by (simp add: findCommand_def reduce_unbound split: option.splits)

text \<open>
  Claim C5. The walk ends for every token list (\<open>reduce\<close> is a structural recursion), and
  the claim has the default command as the result when no token fitted. In the module as it
  is, no scope binds \<^verbatim>\<open>plugin\<close>: for a plugin that has commands, \<^verbatim>\<open>findCommand\<close> throws a
  \<^verbatim>\<open>ReferenceError\<close> for the empty path (at \<^verbatim>\<open>plugin.name\<close>, line 236) and for a token
  that fits nothing (at \<^verbatim>\<open>plugin.commands\<close>, line 225), and returns neither the default
  command of \<^verbatim>\<open>args\<close> nor none.
\<close>

theorem findCommand_default_raises:
  "findCommand None (Some args) [] = Inl ReferenceError
   \<and> findCommand None (Some args) [''nope''] = Inl ReferenceError"
  by (simp add: findCommand_def walk_step_def args_def)

section \<open>Nothing resolved\<close>

text \<open>
  Claim C1. The claim is that an unknown plugin name, an unknown command path, or a pair
  that resolves to nothing never makes \<^verbatim>\<open>run\<close> or \<^verbatim>\<open>findCommand\<close> throw, the context
  coming back with \<^verbatim>\<open>plugin\<close> or \<^verbatim>\<open>command\<close> empty. In the code, a plugin that is not
  found is passed to \<^verbatim>\<open>findCommand\<close> as \<^verbatim>\<open>undefined\<close>, and line 213 reads
  \<^verbatim>\<open>context.commands\<close> of it: a \<^verbatim>\<open>TypeError\<close>, whatever the global scope holds. A command
  path that fits nothing in a plugin with commands ends in the \<^verbatim>\<open>ReferenceError\<close> of the
  unbound identifier \<^verbatim>\<open>plugin\<close>. The check of line 90 is never reached in either case.
\<close>

theorem run_unresolved_raises:
  "findCommand None None [''x''] = Inl TypeError
   \<and> run node_env bare (Arr [''x'']) None = ([], Inl TypeError)
   \<and> run bound_env bare (Arr [''x'']) None = ([], Inl TypeError)
   \<and> run node_env cli (Arr [''args'', ''nope'']) None = ([], Inl ReferenceError)"
  by (simp add: run_defs fixture_defs)

text \<open>
  So where no scope binds \<^verbatim>\<open>plugin\<close>, \<^verbatim>\<open>run\<close> calls no handler, and a context that it
  returns has no command.
\<close>

lemma run_unbound:
  assumes "global_plugin e = None"
  shows "fst (run e this raw opts) = []
         \<and> (\<forall>c. snd (run e this raw opts) = Inr c \<longrightarrow> command c = None)"
proof -
  obtain c0 ts where names: "findNames this (commandArray0 e raw) = (c0, ts)"
    by (cases "findNames this (commandArray0 e raw)")
  show ?thesis
    by (cases "resolvePlugin this c0")
      (simp_all add: run_def names assms findCommand_unbound)
qed

section \<open>The empty string as the command\<close>

text \<open>
  Claim C10. The empty string is falsy, so \<^verbatim>\<open>run('')\<close> takes the argument vector of the
  process, without its first two entries, as its tokens, and is \<^verbatim>\<open>run\<close> with no command
  argument in every respect.
\<close>

theorem run_empty_string:
  "commandArray0 e (Str []) = drop 2 (argv e)
   \<and> run e this (Str []) opts = run e this Absent opts"
  by (simp add: run_def commandArray0_def)

text \<open>
  In a process started as \<^verbatim>\<open>node cli.js args config\<close>, \<^verbatim>\<open>run('')\<close> runs the command
  \<^verbatim>\<open>config\<close>; the empty token array resolves the default command of the brand's plugin.
\<close>

theorem run_empty_string_witness:
  "commandArray0 typed_env (Str '''') = [''args'', ''config'']
   \<and> run typed_env cli (Str '''') None = run typed_env cli Absent None
   \<and> (case snd (run typed_env cli (Str '''') None) of
         Inr c \<Rightarrow> (commandName c, result c) | Inl _ \<Rightarrow> (None, None))
       = (Some ''config'', Some (JStr ''blue''))
   \<and> (case snd (run typed_env cli (Arr []) None) of
         Inr c \<Rightarrow> (commandName c, result c) | Inl _ \<Rightarrow> (None, None))
       = (Some ''args'', None)"
proof -
  have rest: "drop 2 (argv typed_env) = [''args'', ''config'']"
    by (simp add: typed_env_def)
  have absent: "(case snd (run typed_env cli Absent None) of
                   Inr c \<Rightarrow> (commandName c, result c) | Inl _ \<Rightarrow> (None, None))
                 = (Some ''config'', Some (JStr ''blue''))"
    by (simp add: run_defs fixture_defs)
  have explicit: "(case snd (run typed_env cli (Arr []) None) of
                     Inr c \<Rightarrow> (commandName c, result c) | Inl _ \<Rightarrow> (None, None))
                   = (Some ''args'', None)"
    by (simp add: run_defs fixture_defs)
  from run_empty_string [of typed_env cli None] rest absent explicit
  show ?thesis by simp
qed

section \<open>What run builds once the plugin and the command are resolved\<close>

text \<open>
  When the plugin and the command are both resolved, \<^verbatim>\<open>run\<close> goes on to line 92: what it
  then does is \<open>kickItOff\<close> on the context with the configuration and the parameters set.
\<close>

lemma run_resolved:
  assumes names: "findNames this (commandArray0 e raw) = (c0, ts)"
    and pl: "resolvePlugin this c0 = Some p"
    and cmd: "findCommand (global_plugin e) (Some p) ts = Inr (Some c)"
  shows "run e this raw opts =
           kickItOff this c
             (c0\<lparr>plugin := Some p, command := Some c, config := Some (setupConfig this p),
                 parameters := Some (normalizedParameters e p c ts opts)\<rparr>)"
  by (simp add: run_def names pl cmd)

text \<open>
  Claim C2. For every resolved plugin (and command), the configuration on the context that
  \<^verbatim>\<open>run\<close> builds is the base configuration of the runtime at every name but the plugin's,
  and at the plugin's name the merge of the plugin's own defaults with the defaults that the
  runtime holds for that name (the empty object when it holds none): key by key, the value
  of the runtime's defaults where they have the key, else the value of the plugin's own.
\<close>

theorem effective_config:
  assumes names: "findNames this (commandArray0 e raw) = (c0, ts)"
    and pl: "resolvePlugin this c0 = Some p"
    and cmd: "findCommand (global_plugin e) (Some p) ts = Inr (Some c)"
  shows "\<exists>context cfg entry.
           run e this raw opts = kickItOff this c context
           \<and> plugin context = Some p
           \<and> config context = Some cfg
           \<and> (\<forall>n. n \<noteq> plugin_name p \<longrightarrow> cfg n = rt_config this n)
           \<and> cfg (plugin_name p) = Some entry
           \<and> entry = plugin_defaults p ++
                       (case defaults this of
                          None \<Rightarrow> Map.empty
                        | Some d \<Rightarrow> (case d (plugin_name p) of None \<Rightarrow> Map.empty | Some o' \<Rightarrow> o'))
           \<and> (\<forall>k. entry k =
                  (case (case defaults this of
                           None \<Rightarrow> None
                         | Some d \<Rightarrow> (case d (plugin_name p) of None \<Rightarrow> None | Some o' \<Rightarrow> o' k)) of
                     Some v \<Rightarrow> Some v
                   | None \<Rightarrow> plugin_defaults p k))"
proof -
  let ?ctx = "c0\<lparr>plugin := Some p, command := Some c, config := Some (setupConfig this p),
                     parameters := Some (normalizedParameters e p c ts opts)\<rparr>"
  let ?over = "case defaults this of
                 None \<Rightarrow> Map.empty
               | Some d \<Rightarrow> (case d (plugin_name p) of None \<Rightarrow> Map.empty | Some o' \<Rightarrow> o')"
  let ?entry = "plugin_defaults p ++ ?over"
  have r: "run e this raw opts = kickItOff this c ?ctx"
    by (rule run_resolved [OF names pl cmd])
  have other: "\<forall>n. n \<noteq> plugin_name p \<longrightarrow> setupConfig this p n = rt_config this n"
    by (simp add: setupConfig_def clone_def)
  have own: "setupConfig this p (plugin_name p) = Some ?entry"
    by (simp add: setupConfig_def merge_def overrides_def)
  have keys: "\<forall>k. ?entry k =
                (case (case defaults this of
                         None \<Rightarrow> None
                       | Some d \<Rightarrow> (case d (plugin_name p) of None \<Rightarrow> None | Some o' \<Rightarrow> o' k)) of
                   Some v \<Rightarrow> Some v
                 | None \<Rightarrow> plugin_defaults p k)"
    by (simp add: map_add_def split: option.splits)
  show ?thesis
    apply (rule exI [of _ ?ctx])
    apply (rule exI [of _ "setupConfig this p"])
    apply (rule exI [of _ ?entry])
    using r other own keys by simp
qed

text \<open>
  The plugin \<^verbatim>\<open>paint\<close> in a runtime that holds defaults for two plugin names; and the
  plugin \<^verbatim>\<open>args\<close> with the colour blue in its defaults: blue without an override, red
  with the override \<^verbatim>\<open>{args: {color: 'red'}}\<close>, and so is what the command \<^verbatim>\<open>config\<close>
  returns, as in the two tests.
\<close>

theorem effective_config_witness:
  "(\<exists>context cfg entry.
      run paint_env studio (Arr [''paint'']) None = kickItOff studio cmd_paint context
      \<and> plugin context = Some paint
      \<and> config context = Some cfg
      \<and> (\<forall>n. n \<noteq> plugin_name paint \<longrightarrow> cfg n = rt_config studio n)
      \<and> cfg (plugin_name paint) = Some entry
      \<and> entry = plugin_defaults paint ++
                  (case defaults studio of
                     None \<Rightarrow> Map.empty
                   | Some d \<Rightarrow> (case d (plugin_name paint) of None \<Rightarrow> Map.empty | Some o' \<Rightarrow> o'))
      \<and> (\<forall>k. entry k =
             (case (case defaults studio of
                      None \<Rightarrow> None
                    | Some d \<Rightarrow> (case d (plugin_name paint) of None \<Rightarrow> None | Some o' \<Rightarrow> o' k)) of
                Some v \<Rightarrow> Some v
              | None \<Rightarrow> plugin_defaults paint k)))
   \<and> (case snd (run paint_env studio (Arr [''paint'']) None) of
         Inr c \<Rightarrow>
           (case config c of
              Some cfg \<Rightarrow>
                (map_option (\<lambda>m. (m ''color'', m ''size'')) (cfg ''paint''),
                 map_option (\<lambda>m. m ''debug'') (cfg ''shared''),
                 map_option (\<lambda>m. m ''color'') (cfg ''args''))
            | None \<Rightarrow> (None, None, None))
       | Inl _ \<Rightarrow> (None, None, None))
      = (Some (Some (JStr ''green''), Some (JNum 2)), Some (Some (JBool True)), None)
   \<and> (case snd (run bound_env cli (Str ''config'') None) of
         Inr c \<Rightarrow> (case config c of Some cfg \<Rightarrow> map_option (\<lambda>m. m ''color'') (cfg ''args'') | None \<Rightarrow> None)
       | Inl _ \<Rightarrow> None) = Some (Some (JStr ''blue''))
   \<and> (case snd (run bound_env cli_red (Str ''config'') None) of
         Inr c \<Rightarrow> (case config c of Some cfg \<Rightarrow> map_option (\<lambda>m. m ''color'') (cfg ''args'') | None \<Rightarrow> None)
       | Inl _ \<Rightarrow> None) = Some (Some (JStr ''red''))
   \<and> (case snd (run bound_env cli (Str ''config'') None) of
         Inr c \<Rightarrow> result c | Inl _ \<Rightarrow> None) = Some (JStr ''blue'')
   \<and> (case snd (run bound_env cli_red (Str ''config'') None) of
         Inr c \<Rightarrow> result c | Inl _ \<Rightarrow> None) = Some (JStr ''red'')"
proof -
  from effective_config [OF names_paint resolve_paint find_paint, of None]
    config_paint config_args_blue config_args_red result_blue result_red
  show ?thesis by (intro conjI)
qed

text \<open>
  Claim C7. Once the plugin and the command are resolved, the parameters on the context are
  what the normaliser returns for the plugin's name, the command's name and the remaining
  tokens, with the options replaced by the merge of the normaliser's options and the
  caller's: at every key the caller's value where the caller has the key, else the
  normaliser's.
\<close>

theorem caller_options_win:
  assumes names: "findNames this (commandArray0 e raw) = (c0, ts)"
    and pl: "resolvePlugin this c0 = Some p"
    and cmd: "findCommand (global_plugin e) (Some p) ts = Inr (Some c)"
  shows "\<exists>context ps.
           run e this raw opts = kickItOff this c context
           \<and> parameters context = Some ps
           \<and> others ps = others (normalizeParams e (plugin_name p) (cmd_name c) ts)
           \<and> (\<forall>k. options ps k =
                  (case (case opts of None \<Rightarrow> Map.empty | Some o' \<Rightarrow> o') k of
                     Some v \<Rightarrow> Some v
                   | None \<Rightarrow> options (normalizeParams e (plugin_name p) (cmd_name c) ts) k))"
proof -
  let ?ps = "normalizedParameters e p c ts opts"
  let ?ctx = "c0\<lparr>plugin := Some p, command := Some c, config := Some (setupConfig this p),
                     parameters := Some ?ps\<rparr>"
  have r: "run e this raw opts = kickItOff this c ?ctx"
    by (rule run_resolved [OF names pl cmd])
  have oth: "others ?ps = others (normalizeParams e (plugin_name p) (cmd_name c) ts)"
    by (simp add: normalizedParameters_def Let_def)
  have keys: "\<forall>k. options ?ps k =
                (case (case opts of None \<Rightarrow> Map.empty | Some o' \<Rightarrow> o') k of
                   Some v \<Rightarrow> Some v
                 | None \<Rightarrow> options (normalizeParams e (plugin_name p) (cmd_name c) ts) k)"
    by (simp add: normalizedParameters_def Let_def merge_def map_add_def)
  show ?thesis
    apply (rule exI [of _ ?ctx])
    apply (rule exI [of _ ?ps])
    using r oth keys by simp
qed

theorem caller_options_win_witness:
  "(\<exists>context ps.
      run bound_env cli (Str ''args config'') (Some [''force'' \<mapsto> JBool True])
        = kickItOff cli cmd_config context
      \<and> parameters context = Some ps
      \<and> others ps = others (normalizeParams bound_env (plugin_name args) (cmd_name cmd_config) [''config''])
      \<and> (\<forall>k. options ps k =
             (case (case Some [''force'' \<mapsto> JBool True] of None \<Rightarrow> Map.empty | Some o' \<Rightarrow> o') k of
                Some v \<Rightarrow> Some v
              | None \<Rightarrow>
                  options (normalizeParams bound_env (plugin_name args) (cmd_name cmd_config) [''config'']) k)))
   \<and> options (normalizeParams bound_env (plugin_name args) (cmd_name cmd_config) [''config'']) ''force''
       = Some (JBool False)
   \<and> (case snd (run bound_env cli (Str ''args config'') (Some [''force'' \<mapsto> JBool True])) of
         Inr c \<Rightarrow> (case parameters c of
                     Some ps \<Rightarrow> (options ps ''force'', options ps ''name'')
                   | None \<Rightarrow> (None, None))
       | Inl _ \<Rightarrow> (None, None)) = (Some (JBool True), Some (JStr ''config''))"
proof -
  have derived: "options (normalizeParams bound_env (plugin_name args) (cmd_name cmd_config) [''config''])
                   ''force'' = Some (JBool False)"
    by (simp add: bound_env_def flag_params_def)
  have merged: "(case snd (run bound_env cli (Str ''args config'') (Some [''force'' \<mapsto> JBool True])) of
                   Inr c \<Rightarrow> (case parameters c of
                               Some ps \<Rightarrow> (options ps ''force'', options ps ''name'')
                             | None \<Rightarrow> (None, None))
                 | Inl _ \<Rightarrow> (None, None)) = (Some (JBool True), Some (JStr ''config''))"
    by (simp add: run_defs fixture_defs)
  from caller_options_win [OF names_args_config resolve_args find_config,
      of "Some [''force'' \<mapsto> JBool True]"] derived merged
  show ?thesis by (intro conjI)
qed

text \<open>
  Claim C9. When the resolved command has no \<^verbatim>\<open>run\<close>, \<^verbatim>\<open>run\<close> makes no call into a
  handler and returns the context, with plugin, command, configuration and parameters set
  and no result; it throws nothing.
\<close>

theorem no_behaviour_no_call:
  assumes names: "findNames this (commandArray0 e raw) = (c0, ts)"
    and pl: "resolvePlugin this c0 = Some p"
    and cmd: "findCommand (global_plugin e) (Some p) ts = Inr (Some c)"
    and nr: "cmd_run c = None"
  shows "\<exists>context cfg ps.
           run e this raw opts = ([], Inr context)
           \<and> plugin context = Some p \<and> command context = Some c
           \<and> config context = Some cfg \<and> parameters context = Some ps
           \<and> result context = None"
proof -
  let ?ctx = "c0\<lparr>plugin := Some p, command := Some c, config := Some (setupConfig this p),
                     parameters := Some (normalizedParameters e p c ts opts)\<rparr>"
  have r: "run e this raw opts = kickItOff this c ?ctx"
    by (rule run_resolved [OF names pl cmd])
  have k: "kickItOff this c ?ctx = ([], Inr ?ctx)"
    by (simp add: kickItOff_def nr)
  have "result c0 = None"
    using names by (auto simp: findNames_def RunContext_def split: list.splits if_splits)
  then have res: "result ?ctx = None" by simp
  show ?thesis
    apply (rule exI [of _ ?ctx])
    using r k res by simp
qed

theorem no_behaviour_no_call_witness:
  "cmd_run cmd_args = None
   \<and> (\<exists>context cfg ps.
         run bound_env cli (Arr [''args'']) None = ([], Inr context)
         \<and> plugin context = Some args \<and> command context = Some cmd_args
         \<and> config context = Some cfg \<and> parameters context = Some ps
         \<and> result context = None)"
proof -
  have nr: "cmd_run cmd_args = None" by (simp add: cmd_args_def)
  from nr no_behaviour_no_call [OF names_args resolve_args find_default nr, of None]
  show ?thesis by (intro conjI)
qed

section \<open>Extensions and the command\<close>





section \<open>A plugin name as the first token\<close>

lemma findPlugin_known:
  assumes "t \<in> set (pluginNames this)"
  shows "\<exists>p. findPlugin this t = Some p \<and> plugin_name p = t"
proof (cases "findPlugin this t")
  case None
  with assms show ?thesis
    by (auto simp: findPlugin_def pluginNames_def find_None_iff)
next
  case (Some p)
  then have "plugin_name p = t"
    by (auto simp: findPlugin_def find_Some_iff)
  with Some show ?thesis by simp
qed

text \<open>
  Claim C6, as amended. Let the tokens (after lines 59 to 64) start with a non-empty name
  \<open>t\<close> of a registered plugin. Then \<^verbatim>\<open>run\<close> selects the plugin of that name, the command
  name is the second token when there is one and it is not empty, else \<open>t\<close>, and the
  command is looked for with the tokens after \<open>t\<close>: \<^verbatim>\<open>run\<close> throws what \<^verbatim>\<open>findCommand\<close>
  throws, returns the context when no command is found, and goes on to the handlers with
  the command found. With nothing after \<open>t\<close>, and where the identifier \<^verbatim>\<open>plugin\<close> of
  \<^verbatim>\<open>findCommand\<close> denotes the selected plugin, the command looked for is the one whose
  path is \<open>[t]\<close>.
\<close>

theorem known_plugin_selected:
  assumes ca: "commandArray0 e raw = t # rest"
    and ne: "t \<noteq> []"
    and known: "t \<in> set (pluginNames this)"
  shows "\<exists>p context.
           findPlugin this t = Some p \<and> plugin_name p = t
           \<and> pluginName context = Some t
           \<and> commandName context
               = Some (case rest of [] \<Rightarrow> t | second # _ \<Rightarrow> if second = [] then t else second)
           \<and> plugin context = Some p
           \<and> (case findCommand (global_plugin e) (Some p) rest of
                 Inl err \<Rightarrow> run e this raw opts = ([], Inl err)
               | Inr None \<Rightarrow> run e this raw opts = ([], Inr context) \<and> command context = None
               | Inr (Some c) \<Rightarrow>
                   run e this raw opts = kickItOff this c context \<and> command context = Some c)
           \<and> (rest = [] \<and> global_plugin e = Some p \<longrightarrow>
                 findCommand (global_plugin e) (Some p) rest
                   = Inr (find (\<lambda>c. commandPath c = [t]) (commands p)))"
proof -
  from findPlugin_known [OF known] obtain p
    where fp: "findPlugin this t = Some p" and pn: "plugin_name p = t" by blast
  let ?cn = "case rest of [] \<Rightarrow> t | second # _ \<Rightarrow> if second = [] then t else second"
  let ?c0 = "RunContext\<lparr>pluginName := Some t, commandName := Some ?cn\<rparr> :: 'a runContext"
  have names: "findNames this (commandArray0 e raw) = (?c0, rest)"
    by (simp add: ca findNames_def ne known)
  have pl: "resolvePlugin this ?c0 = Some p"
    by (simp add: resolvePlugin_def RunContext_def fp)
  let ?c1 = "?c0\<lparr>plugin := Some p\<rparr>"
  have dflt: "rest = [] \<and> global_plugin e = Some p \<longrightarrow>
                findCommand (global_plugin e) (Some p) rest
                  = Inr (find (\<lambda>c. commandPath c = [t]) (commands p))"
    using pn by (auto simp: findCommand_empty_path)
  show ?thesis
  proof (cases "findCommand (global_plugin e) (Some p) rest")
    case (Inl err)
    then have "run e this raw opts = ([], Inl err)"
      by (simp add: run_def names pl)
    with Inl fp pn dflt show ?thesis
      by (intro exI [of _ p] exI [of _ ?c1]) simp
  next
    case (Inr found)
    show ?thesis
    proof (cases found)
      case None
      with Inr have "run e this raw opts = ([], Inr (?c1\<lparr>command := None\<rparr>))"
        by (simp add: run_def names pl)
      with Inr None fp pn dflt show ?thesis
        by (intro exI [of _ p] exI [of _ "?c1\<lparr>command := None\<rparr>"]) (simp add: RunContext_def)
    next
      case (Some c)
      let ?c2 = "?c0\<lparr>plugin := Some p, command := Some c, config := Some (setupConfig this p),
                     parameters := Some (normalizedParameters e p c rest opts)\<rparr>"
      from Inr Some have "run e this raw opts = kickItOff this c ?c2"
        by (simp add: run_resolved [OF names pl])
      with Inr Some fp pn dflt show ?thesis
        by (intro exI [of _ p] exI [of _ ?c2]) simp
    qed
  qed
qed

theorem known_plugin_selected_witness:
  "commandArray0 bound_env (Arr [''args'']) = [''args'']
   \<and> ''args'' \<in> set (pluginNames cli)
   \<and> (\<exists>p context.
         findPlugin cli ''args'' = Some p \<and> plugin_name p = ''args''
         \<and> pluginName context = Some ''args''
         \<and> commandName context
             = Some (case [] of [] \<Rightarrow> ''args'' | second # _ \<Rightarrow> if second = [] then ''args'' else second)
         \<and> plugin context = Some p
         \<and> (case findCommand (global_plugin bound_env) (Some p) [] of
               Inl err \<Rightarrow> run bound_env cli (Arr [''args'']) None = ([], Inl err)
             | Inr None \<Rightarrow>
                 run bound_env cli (Arr [''args'']) None = ([], Inr context) \<and> command context = None
             | Inr (Some c) \<Rightarrow>
                 run bound_env cli (Arr [''args'']) None = kickItOff cli c context
                 \<and> command context = Some c)
         \<and> ([] = ([] :: string list) \<and> global_plugin bound_env = Some p \<longrightarrow>
               findCommand (global_plugin bound_env) (Some p) []
                 = Inr (find (\<lambda>c. commandPath c = [''args'']) (commands p))))
   \<and> (case snd (run bound_env cli (Arr [''args'']) None) of
         Inr c \<Rightarrow> (commandName c, map_option commandPath (command c))
       | Inl _ \<Rightarrow> (None, None)) = (Some ''args'', Some [''args''])"
proof -
  have ca: "commandArray0 bound_env (Arr [''args'']) = [''args'']"
    by (simp add: commandArray0_def bound_env_def)
  have ne: "''args'' \<noteq> []" by simp
  have known: "''args'' \<in> set (pluginNames cli)"
    by (simp add: pluginNames_def cli_def args_def)
  have out: "(case snd (run bound_env cli (Arr [''args'']) None) of
                Inr c \<Rightarrow> (commandName c, map_option commandPath (command c))
              | Inl _ \<Rightarrow> (None, None)) = (Some ''args'', Some [''args''])"
    by (simp add: run_defs fixture_defs)
  from ca known known_plugin_selected [OF ca ne known, of None] out
  show ?thesis by (intro conjI)
qed

text \<open>
  Claim C6 as the spec states it, the second token when present, fails for a second token
  that is the empty string, as after \<^verbatim>\<open>run('quiet ')\<close>: the command name is the plugin's.
\<close>

theorem empty_second_token_counterexample:
  "''quiet'' \<in> set (pluginNames hushed)
   \<and> [''quiet'', ''''] ! 1 \<noteq> ''quiet''
   \<and> (case snd (run node_env hushed (Arr [''quiet'', '''']) None) of
         Inr c \<Rightarrow> commandName c | Inl _ \<Rightarrow> None) = Some ''quiet''"
  by (simp add: run_defs fixture_defs)

end
